theory Spec2Isabelle
  imports Main "HOL-Library.Word"
begin

section \<open>Values, channels and the package state of csp.go\<close>

text \<open>
  The file csp.go is a commentary on Hoare's CSP paper in the form of Go snippets. The
  snippets communicate over unbuffered channels and keep their data in package-level
  variables (the declarations at the end of the file). Go's \<open>int\<close> is a 64-bit
  two's-complement integer, so \<open>x = x + 1\<close> wraps around.
\<close>

type_synonym goint = "64 word"

text \<open>
  A value of the interface type \<open>any\<close> carries its dynamic type. The two struct types
  \<open>has\<close> and \<open>insert\<close> of \<open>assignmentExamples\<close> both have the single field \<open>n int\<close>.
\<close>

datatype any = ANil | AInt goint | AStr string | AHas goint | AInsert goint

datatype gotype = TInt | TString | THas | TInsert

fun dyn_type :: "any \<Rightarrow> gotype option" where
  "dyn_type ANil = None"
| "dyn_type (AInt n) = Some TInt"
| "dyn_type (AStr s) = Some TString"
| "dyn_type (AHas n) = Some THas"
| "dyn_type (AInsert n) = Some TInsert"

fun type_name :: "gotype option \<Rightarrow> string" where
  "type_name None = ''nil''"
| "type_name (Some TInt) = ''int''"
| "type_name (Some TString) = ''string''"
| "type_name (Some THas) = ''csp.has''"
| "type_name (Some TInsert) = ''csp.insert''"

text \<open>
  The single-result type assertion \<open>v.(T)\<close>: it yields the value when the dynamic type of
  \<open>v\<close> is \<open>T\<close> and panics at run time otherwise (also for a nil interface).
\<close>

definition type_assert :: "gotype \<Rightarrow> any \<Rightarrow> string + any" where
  "type_assert T v =
     (if dyn_type v = Some T then Inr v
      else Inl (''interface conversion: interface {} is '' @ type_name (dyn_type v)
                @ '', not '' @ type_name (Some T)))"

text \<open>
  An unbuffered channel, seen from the goroutine that runs a snippet. A channel variable
  is nil until it is assigned; \<open>senders\<close> are the values offered by the goroutines that
  are blocked writing to the channel (oldest first), \<open>receivers\<close> counts the goroutines
  blocked reading from it, and \<open>delivered\<close> logs the values the snippet has handed over.
  A closed channel has neither waiting senders nor waiting receivers.
\<close>

datatype 'a chan =
    NilChan
  | Open (senders: "'a list") (receivers: nat) (delivered: "'a list")
  | Closed (delivered: "'a list")

fun is_closed :: "'a chan \<Rightarrow> bool" where
  "is_closed (Closed d) = True"
| "is_closed ch = False"

text \<open>
  The package-level variables the modelled snippets use (lines 323 to 344 of csp.go).
  The integer variables \<open>x\<close>, \<open>y\<close>, \<open>m\<close> are the fields \<open>var_x\<close>, \<open>var_y\<close>, \<open>var_m\<close>.
\<close>

record gstate =
  cardreader :: "string chan"
  cardimage :: string
  lineprinter :: "string chan"
  lineimage :: string
  var_x :: goint
  var_y :: goint
  var_m :: goint
  lhs :: any
  left :: goint
  right :: goint
  west :: "any chan"
  east :: "any chan"
  north :: "any chan"
  south :: "any chan"
  alwaysReady :: "any chan"

text \<open>
  The state right after package initialisation: \<open>cardreader\<close> and \<open>lineprinter\<close> are made
  with \<open>make(chan string)\<close>, every other channel variable is declared without a value and
  is therefore nil, and the other variables hold their zero values.
\<close>

definition init_state :: gstate where
  "init_state = \<lparr> cardreader = Open [] 0 [], cardimage = [],
                  lineprinter = Open [] 0 [], lineimage = [],
                  var_x = 0, var_y = 0, var_m = 0, lhs = ANil, left = 0, right = 0,
                  west = NilChan, east = NilChan, north = NilChan, south = NilChan,
                  alwaysReady = NilChan \<rparr>"

text \<open>
  How a snippet ends: it returns, it blocks (no communication it waits for can proceed),
  or it panics. A blocked or panicking run keeps the state it had reached.
\<close>

datatype 'a outcome = Returns 'a | Blocks gstate | Panics string gstate

section \<open>2.2 Assignment\<close>

text \<open>
  \<open>assignmentExamples\<close> (lines 65 to 103), statement by statement; \<open>x_\<close> and \<open>result\<close>
  are the local \<open>cons\<close> structs (\<open>x_\<close> is \<open>x_cons\<close> here), modelled as pairs \<open>(left, right)\<close>.
\<close>

definition assignmentExamples :: "gstate \<Rightarrow> gstate outcome" where
  "assignmentExamples s0 =
     (let s1 = s0\<lparr>var_x := var_x s0 + 1\<rparr>;
          s2 = s1\<lparr>var_x := var_y s1, var_y := var_x s1\<rparr>;
          x_cons = (left s2, right s2);
          result = x_cons;
          s3 = s2\<lparr>left := fst result\<rparr>;
          s4 = s3\<lparr>right := snd result\<rparr>;
          rhs = AHas 1
      in case type_assert TInsert rhs of
           Inl msg \<Rightarrow> Panics msg s4
         | Inr v \<Rightarrow> Returns (s4\<lparr>lhs := v\<rparr>))"

section \<open>2.3 Input and output commands\<close>

text \<open>
  A channel read \<open><-ch\<close>, as lines 29 to 35 describe it: the read takes place when a
  writer is blocked on the channel and blocks otherwise (\<open>None\<close>). Go adds two cases: a
  read from a nil channel blocks forever, and a read from a closed channel returns at
  once with the zero value of the element type (reported here as the value \<open>None\<close>).
\<close>

fun recv :: "'a chan \<Rightarrow> ('a option \<times> 'a chan) option" where
  "recv NilChan = None"
| "recv (Closed d) = Some (None, Closed d)"
| "recv (Open [] r d) = None"
| "recv (Open (v # vs) r d) = Some (Some v, Open vs r d)"

text \<open>
  A channel write \<open>ch <- v\<close>: it takes place when a reader is blocked on the channel and
  blocks otherwise; a write to a nil channel blocks forever and a write to a closed
  channel is the run-time panic "send on closed channel".
\<close>

datatype 'a sent = Sent "'a chan" | SendBlocks | SendPanics

fun send :: "'a \<Rightarrow> 'a chan \<Rightarrow> 'a sent" where
  "send v NilChan = SendBlocks"
| "send v (Closed d) = SendPanics"
| "send v (Open ws 0 d) = SendBlocks"
| "send v (Open ws (Suc r) d) = Sent (Open ws r (d @ [v]))"

text \<open>\<open>simpleRead\<close> (lines 19 to 21): \<open>cardimage = <-cardreader\<close>.\<close>

definition simpleRead :: "gstate \<Rightarrow> gstate outcome" where
  "simpleRead s =
     (case recv (cardreader s) of
        None \<Rightarrow> Blocks s
      | Some (vo, ch) \<Rightarrow>
          Returns (s\<lparr>cardreader := ch,
                     cardimage := (case vo of None \<Rightarrow> [] | Some v \<Rightarrow> v)\<rparr>))"

text \<open>\<open>simpleWrite\<close> (lines 25 to 27): \<open>lineprinter <- lineimage\<close>.\<close>

definition simpleWrite :: "gstate \<Rightarrow> gstate outcome" where
  "simpleWrite s =
     (case send (lineimage s) (lineprinter s) of
        Sent ch \<Rightarrow> Returns (s\<lparr>lineprinter := ch\<rparr>)
      | SendBlocks \<Rightarrow> Blocks s
      | SendPanics \<Rightarrow> Panics ''send on closed channel'' s)"

section \<open>2.1 Parallel commands\<close>

text \<open>
  \<open>parallel\<close> (lines 42 to 56) uses two library calls that are not part of this
  repository. \<open>errgroup.WithContext(ctx)\<close> of golang.org/x/sync derives a cancellable
  context from \<open>ctx\<close> with the standard library's \<open>context.WithCancel\<close>
  (\<open>WithCancelCause\<close> in later versions), and that function panics with
  "cannot create context from nil parent" when its parent is nil. A context is
  modelled by the chain of its parents.
\<close>

datatype gocontext = Background | Derived gocontext

definition context_WithCancel :: "gocontext option \<Rightarrow> string + gocontext" where
  "context_WithCancel parent =
     (case parent of
        None \<Rightarrow> Inl ''cannot create context from nil parent''
      | Some p \<Rightarrow> Inr (Derived p))"

definition errgroup_WithContext :: "gocontext option \<Rightarrow> string + gocontext" where
  "errgroup_WithContext ctx = context_WithCancel ctx"

text \<open>
  \<open>g.Go(f1); g.Go(f2); return g.Wait()\<close>: both functions run, each in its own
  goroutine; a panic in either ends the program, \<open>Wait\<close> blocks until both have
  returned and then yields the first non-nil error (\<open>None\<close> is the nil error). The two
  functions of \<open>parallel\<close> work on disjoint variables, so they are run one after the other.
\<close>

definition group_run ::
  "(gstate \<Rightarrow> gstate outcome) \<Rightarrow> (gstate \<Rightarrow> gstate outcome) \<Rightarrow> gstate
     \<Rightarrow> (string option \<times> gstate) outcome" where
  "group_run f1 f2 s =
     (case f1 s of
        Panics msg t \<Rightarrow> Panics msg t
      | Returns t \<Rightarrow>
          (case f2 t of
             Panics msg u \<Rightarrow> Panics msg u
           | Returns u \<Rightarrow> Returns (None, u)
           | Blocks u \<Rightarrow> Blocks u)
      | Blocks t \<Rightarrow>
          (case f2 t of
             Panics msg u \<Rightarrow> Panics msg u
           | Returns u \<Rightarrow> Blocks u
           | Blocks u \<Rightarrow> Blocks u))"

text \<open>
  \<open>parallel\<close>: the local \<open>ctx\<close> is declared without a value, so it is the nil interface
  (\<open>None\<close>) when it is passed to \<open>errgroup.WithContext\<close>. The two goroutine bodies are
  the statements of \<open>simpleRead\<close> and \<open>simpleWrite\<close>, each followed by \<open>return nil\<close>.
\<close>

definition parallel :: "gstate \<Rightarrow> (string option \<times> gstate) outcome" where
  "parallel s =
     (let ctx = None in
      case errgroup_WithContext ctx of
        Inl msg \<Rightarrow> Panics msg s
      | Inr ctx' \<Rightarrow> group_run simpleRead simpleWrite s)"

section \<open>2.4 Alternative and repetitive commands\<close>

text \<open>
  The snippets of section 2.4 are Go \<open>select\<close> statements, and they are modelled as the Go
  language runs them: a case is ready when its read can proceed, a closed channel is
  ready to be read (it yields the zero value), a nil channel is never ready, \<open>default\<close>
  runs when no case is ready, and a \<open>select\<close> without a ready case and without \<open>default\<close>
  blocks. The commentary describes what Hoare's alternative command would do instead
  (guards that are evaluated, cases removed when their channel is closed, a command
  without cases that does nothing); the snippets carry the guards as \<open>// when ...\<close>
  comments, which have no effect on the statement.
\<close>

text \<open>The \<open>chan any\<close> variables the \<open>select\<close> statements use.\<close>

datatype chan_name = West | East | North | South | AlwaysReady

fun get_chan :: "gstate \<Rightarrow> chan_name \<Rightarrow> any chan" where
  "get_chan s West = west s"
| "get_chan s East = east s"
| "get_chan s North = north s"
| "get_chan s South = south s"
| "get_chan s AlwaysReady = alwaysReady s"

fun put_chan :: "chan_name \<Rightarrow> any chan \<Rightarrow> gstate \<Rightarrow> gstate" where
  "put_chan West ch s = s\<lparr>west := ch\<rparr>"
| "put_chan East ch s = s\<lparr>east := ch\<rparr>"
| "put_chan North ch s = s\<lparr>north := ch\<rparr>"
| "put_chan South ch s = s\<lparr>south := ch\<rparr>"
| "put_chan AlwaysReady ch s = s\<lparr>alwaysReady := ch\<rparr>"

text \<open>
  The statements in the bodies of the cases: a write of the value just read
  (\<open>east <- c\<close>, \<open>south <- c2\<close>) and an assignment to an integer variable (\<open>m = x\<close>).
\<close>

datatype var = VarX | VarY | VarM

fun set_var :: "var \<Rightarrow> goint \<Rightarrow> gstate \<Rightarrow> gstate" where
  "set_var VarX n s = s\<lparr>var_x := n\<rparr>"
| "set_var VarY n s = s\<lparr>var_y := n\<rparr>"
| "set_var VarM n s = s\<lparr>var_m := n\<rparr>"

datatype action = SendTo chan_name | Assign var "gstate \<Rightarrow> goint"

fun exec_action :: "action \<Rightarrow> any \<Rightarrow> gstate \<Rightarrow> gstate outcome" where
  "exec_action (SendTo n) v s =
     (case send v (get_chan s n) of
        Sent ch \<Rightarrow> Returns (put_chan n ch s)
      | SendBlocks \<Rightarrow> Blocks s
      | SendPanics \<Rightarrow> Panics ''send on closed channel'' s)"
| "exec_action (Assign x e) v s = Returns (set_var x (e s) s)"

text \<open>
  One case of a \<open>select\<close>: the channel it reads from and its body, together with the
  boolean expressions of the \<open>// when\<close> comment written next to it (none when there is
  no comment). The comment is kept as an annotation only: nothing below reads \<open>conds\<close>.
\<close>

record gcase =
  conds :: "(gstate \<Rightarrow> bool) list"
  input :: chan_name
  body :: action

text \<open>A case is ready when the read from its channel can proceed now.\<close>

definition ready :: "gcase \<Rightarrow> gstate \<Rightarrow> bool" where
  "ready c s = (recv (get_chan s (input c)) \<noteq> None)"

definition viable :: "gcase list \<Rightarrow> gstate \<Rightarrow> nat list" where
  "viable cases s = filter (\<lambda>i. ready (cases ! i) s) [0 ..< length cases]"

text \<open>
  "If both west and north are ready, one of the cases is chosen at random" (lines 149,
  150); the Go language makes it a uniform pseudo-random choice among the cases that can
  proceed. The random number drawn for the choice is the argument \<open>r\<close>; it picks a
  position among the cases that can proceed.
\<close>

definition chosen :: "nat \<Rightarrow> gcase list \<Rightarrow> gstate \<Rightarrow> nat option" where
  "chosen r cases s =
     (let vs = viable cases s in
      if vs = [] then None else Some (vs ! (r mod length vs)))"

text \<open>
  The result of one \<open>select\<close>: the case with the given index was chosen and ran, with
  the value it read, or no case was ready and \<open>default\<close> ran.
\<close>

datatype result = Selected nat "any option" | Exhausted

fun tag :: "result \<Rightarrow> gstate outcome \<Rightarrow> (result \<times> gstate) outcome" where
  "tag res (Returns s) = Returns (res, s)"
| "tag res (Blocks s) = Blocks s"
| "tag res (Panics msg s) = Panics msg s"

text \<open>
  Case \<open>i\<close> is taken: its read happens and its body runs with the value read (the zero
  value \<open>nil\<close> when the channel is closed).
\<close>

definition fire :: "gcase list \<Rightarrow> nat \<Rightarrow> gstate \<Rightarrow> (result \<times> gstate) outcome" where
  "fire cases i s =
     (let c = cases ! i in
      case recv (get_chan s (input c)) of
        None \<Rightarrow> Blocks s
      | Some (vo, ch) \<Rightarrow>
          (let v = (case vo of None \<Rightarrow> ANil | Some w \<Rightarrow> w) in
           tag (Selected i (Some v)) (exec_action (body c) v (put_chan (input c) ch s))))"

text \<open>
  One \<open>select\<close> statement with the given cases; \<open>dflt\<close> tells whether it has a
  \<open>default\<close> case (whose body, in every snippet, is \<open>break LOOP\<close>).
\<close>

definition alternative ::
  "bool \<Rightarrow> nat \<Rightarrow> gcase list \<Rightarrow> gstate \<Rightarrow> (result \<times> gstate) outcome" where
  "alternative dflt r cases s =
     (case chosen r cases s of
        Some i \<Rightarrow> fire cases i s
      | None \<Rightarrow> if dflt then Returns (Exhausted, s) else Blocks s)"

text \<open>
  \<open>for { select { ... } }\<close>: the loop of \<open>repetition\<close>. It goes round again after a case
  has run and is left by \<open>break LOOP\<close> when \<open>default\<close> ran. \<open>rnd k\<close> is the random
  number drawn by the \<open>select\<close> of round \<open>k\<close>, \<open>fuel\<close> bounds the number of \<open>select\<close>
  statements executed (\<open>None\<close>: the bound was reached), and the indices of the cases
  chosen so far are collected in \<open>trace\<close>.
\<close>

fun repetitive ::
  "bool \<Rightarrow> (nat \<Rightarrow> nat) \<Rightarrow> gcase list \<Rightarrow> nat \<Rightarrow> nat list \<Rightarrow> gstate
     \<Rightarrow> (nat list \<times> gstate) outcome option" where
  "repetitive dflt rnd cases 0 trace s = None"
| "repetitive dflt rnd cases (Suc fuel) trace s =
     (case alternative dflt (rnd (length trace)) cases s of
        Returns (Selected i v, s') \<Rightarrow> repetitive dflt rnd cases fuel (trace @ [i]) s'
      | Returns (Exhausted, s') \<Rightarrow> Some (Returns (trace, s'))
      | Blocks s' \<Rightarrow> Some (Blocks s')
      | Panics msg s' \<Rightarrow> Some (Panics msg s'))"

subsection \<open>The snippets\<close>

text \<open>The expressions \<open>x > y\<close> and \<open>y > x\<close> of the comments: signed comparisons on \<open>int\<close>.\<close>

definition x_gt_y :: "gstate \<Rightarrow> bool" where
  "x_gt_y s = (var_y s <s var_x s)"

definition y_gt_x :: "gstate \<Rightarrow> bool" where
  "y_gt_x s = (var_x s <s var_y s)"

text \<open>\<open>simpleAlternative\<close> (lines 137 to 144).\<close>

definition simple_cases :: "gcase list" where
  "simple_cases =
     [\<lparr>conds = [], input = West, body = SendTo East\<rparr>,
      \<lparr>conds = [], input = North, body = SendTo South\<rparr>]"

definition simpleAlternative :: "nat \<Rightarrow> gstate \<Rightarrow> (result \<times> gstate) outcome" where
  "simpleAlternative r s = alternative False r simple_cases s"

text \<open>\<open>alternativeWithBooleanCriteria\<close> (lines 162 to 169), with its \<open>when\<close> comments.\<close>

definition guarded_cases :: "gcase list" where
  "guarded_cases =
     [\<lparr>conds = [x_gt_y], input = West, body = SendTo East\<rparr>,
      \<lparr>conds = [y_gt_x], input = North, body = SendTo South\<rparr>]"

definition alternativeWithBooleanCriteria :: "nat \<Rightarrow> gstate \<Rightarrow> (result \<times> gstate) outcome" where
  "alternativeWithBooleanCriteria r s = alternative False r guarded_cases s"

text \<open>\<open>alternativeWithBooleanCriteriaXGreaterThanY\<close> (lines 176 to 181).\<close>

definition alternativeWithBooleanCriteriaXGreaterThanY ::
  "nat \<Rightarrow> gstate \<Rightarrow> (result \<times> gstate) outcome" where
  "alternativeWithBooleanCriteriaXGreaterThanY r s =
     alternative False r [\<lparr>conds = [], input = West, body = SendTo East\<rparr>] s"

text \<open>\<open>alternativeXGreaterThanY\<close> (lines 185 to 187): \<open>select {}\<close>.\<close>

definition alternativeXGreaterThanY :: "nat \<Rightarrow> gstate \<Rightarrow> (result \<times> gstate) outcome" where
  "alternativeXGreaterThanY r s = alternative False r [] s"


text \<open>\<open>repetitionXGreaterThanY\<close> (lines 216 to 223).\<close>

definition repetitionXGreaterThanY ::
  "(nat \<Rightarrow> nat) \<Rightarrow> nat \<Rightarrow> gstate \<Rightarrow> (nat list \<times> gstate) outcome option" where
  "repetitionXGreaterThanY rnd fuel s =
     repetitive False rnd [\<lparr>conds = [], input = West, body = SendTo East\<rparr>] fuel [] s"

text \<open>\<open>alternativeWithXEqualY\<close> (lines 227 to 235): only \<open>default: break LOOP\<close>.\<close>

definition alternativeWithXEqualY ::
  "(nat \<Rightarrow> nat) \<Rightarrow> nat \<Rightarrow> gstate \<Rightarrow> (nat list \<times> gstate) outcome option" where
  "alternativeWithXEqualY rnd fuel s = repetitive True rnd [] fuel [] s"

text \<open>\<open>alternativeWithWestClosed\<close> (lines 242 to 250): the same statement.\<close>

definition alternativeWithWestClosed ::
  "(nat \<Rightarrow> nat) \<Rightarrow> nat \<Rightarrow> gstate \<Rightarrow> (nat list \<times> gstate) outcome option" where
  "alternativeWithWestClosed rnd fuel s = repetitive True rnd [] fuel [] s"

text \<open>\<open>nonInputGuards\<close> (lines 259 to 266).\<close>

definition input_free_cases :: "gcase list" where
  "input_free_cases =
     [\<lparr>conds = [x_gt_y], input = AlwaysReady, body = Assign VarM var_x\<rparr>,
      \<lparr>conds = [y_gt_x], input = AlwaysReady, body = Assign VarM var_y\<rparr>]"

definition nonInputGuards :: "nat \<Rightarrow> gstate \<Rightarrow> (result \<times> gstate) outcome" where
  "nonInputGuards r s = alternative False r input_free_cases s"

subsection \<open>States and guards for the examples\<close>


definition both_closed :: gstate where
  "both_closed = init_state\<lparr>west := Closed [], north := Closed [],
                            east := Open [] 1 [], south := Open [] 1 []\<rparr>"





text \<open>
  States for the read and write examples: a card is offered on \<open>cardreader\<close>;
  \<open>cardreader\<close> is closed; \<open>lineprinter\<close> is closed.
\<close>

definition card_waiting :: gstate where
  "card_waiting = init_state\<lparr>cardreader := Open [''card''] 0 []\<rparr>"

definition reader_closed :: gstate where
  "reader_closed = init_state\<lparr>cardreader := Closed [], cardimage := ''old''\<rparr>"

definition printer_closed :: gstate where
  "printer_closed = init_state\<lparr>lineprinter := Closed [], lineimage := ''line''\<rparr>"

section \<open>The precondition of a guard\<close>

text \<open>
  Modelled from the spec: the evaluation of a Guard's precondition. The repository has
  no code that evaluates a guard: the guards of the snippets are \<open>// when\<close> comments, and
  the rule is stated only in the comment at lines 268 to 273. Specification, section 3:
  the precondition is a "zero-argument function returning a boolean"; section 4.2, step
  3: "Boolean sub-expressions within a single precondition are evaluated left-to-right
  with short-circuit semantics: the first false sub-expression makes the whole
  precondition false and no later sub-expression is evaluated", which "matters when
  later sub-expressions have side effects". A sub-expression is therefore a function
  from the state to its value and the state after its side effects.
\<close>

type_synonym 's subexpr = "'s \<Rightarrow> bool \<times> 's"

fun precondition :: "'s subexpr list \<Rightarrow> 's \<Rightarrow> bool \<times> 's" where
  "precondition [] s = (True, s)"
| "precondition (e # es) s =
     (case e s of
        (True, s') \<Rightarrow> precondition es s'
      | (False, s') \<Rightarrow> (False, s'))"

text \<open>
  Modelled from the spec: the test doubles of section 8 ("a test double recording call
  counts must show B uncalled after A reports false"). The state is the pair of the
  call counts of \<open>A\<close> and \<open>B\<close>; \<open>A\<close> reports false and \<open>B\<close> reports true.
\<close>

definition double_A :: "(nat \<times> nat) subexpr" where
  "double_A s = (False, (Suc (fst s), snd s))"

definition double_B :: "(nat \<times> nat) subexpr" where
  "double_B s = (True, (fst s, Suc (snd s)))"

section \<open>Basic facts\<close>

lemma get_put_chan: "get_chan (put_chan n ch s) k = (if k = n then ch else get_chan s k)"
  by (cases n; cases k) simp_all

lemma put_get_chan: "put_chan n (get_chan s n) s = s"
  by (cases n) simp_all

lemma get_chan_set_var: "get_chan (set_var x n s) k = get_chan s k"
  by (cases x; cases k) simp_all


lemma viable_iff: "i \<in> set (viable cases s) \<longleftrightarrow> i < length cases \<and> ready (cases ! i) s"
  by (auto simp: viable_def)

lemma chosen_viable: "chosen r cases s = Some j \<Longrightarrow> j \<in> set (viable cases s)"
  by (auto simp: chosen_def Let_def split: if_splits)

lemma chosen_None: "chosen r cases s = None \<longleftrightarrow> viable cases s = []"
  by (simp add: chosen_def Let_def)

lemma viable_chosen:
  assumes "i \<in> set (viable cases s)"
  shows "\<exists>r < length (viable cases s). chosen r cases s = Some i"
proof -
  from assms obtain k where k: "k < length (viable cases s)" "viable cases s ! k = i"
    by (auto simp: in_set_conv_nth)
  then have "chosen k cases s = Some i"
    by (auto simp: chosen_def Let_def)
  with k show ?thesis by blast
qed



lemma tag_Returns: "tag res out = Returns (res', s') \<Longrightarrow> res' = res \<and> out = Returns s'"
  by (cases out) simp_all

lemma fire_result: "fire cases j s = Returns (res, s') \<Longrightarrow> \<exists>v. res = Selected j v"
  by (auto simp: fire_def Let_def split: option.splits dest: tag_Returns)

lemma recv_closed: "is_closed ch \<Longrightarrow> recv ch = Some (None, ch)"
  by (cases ch) simp_all

lemma recv_keeps_closed: "recv ch = Some (vo, ch') \<Longrightarrow> is_closed ch' = is_closed ch"
  by (cases ch rule: recv.cases) auto

lemma send_closed: "is_closed ch \<Longrightarrow> send v ch = SendPanics"
  by (cases ch) simp_all

lemma send_keeps_closed: "send v ch = Sent ch' \<Longrightarrow> is_closed ch' = is_closed ch"
  by (cases "(v, ch)" rule: send.cases) auto

lemma exec_action_closed:
  "exec_action a v s = Returns s' \<Longrightarrow> is_closed (get_chan s' n) = is_closed (get_chan s n)"
proof (cases a)
  case (SendTo k)
  assume "exec_action a v s = Returns s'"
  with SendTo show ?thesis
    by (cases "n = k") (auto simp: get_put_chan split: sent.splits dest: send_keeps_closed)
next
  case (Assign x e)
  assume "exec_action a v s = Returns s'"
  with Assign show ?thesis by (auto simp: get_chan_set_var)
qed

lemma fire_closed:
  "fire cases j s = Returns (res, s') \<Longrightarrow> is_closed (get_chan s' n) = is_closed (get_chan s n)"
  by (auto simp: fire_def Let_def get_put_chan split: if_splits option.splits
      dest!: tag_Returns exec_action_closed recv_keeps_closed)


lemma alternative_result:
  assumes "alternative dflt r cases s = Returns (Selected j v, s')"
  shows "chosen r cases s = Some j"
proof (cases "chosen r cases s")
  case None
  with assms show ?thesis by (auto simp: alternative_def split: if_splits)
next
  case (Some k)
  with assms have "fire cases k s = Returns (Selected j v, s')"
    by (simp add: alternative_def)
  from fire_result [OF this] Some show ?thesis by simp
qed

lemma alternative_closed:
  assumes "alternative dflt r cases s = Returns (res, s')"
  shows "is_closed (get_chan s' n) = is_closed (get_chan s n)"
proof (cases "chosen r cases s")
  case None
  with assms show ?thesis by (auto simp: alternative_def split: if_splits)
next
  case (Some k)
  with assms have "fire cases k s = Returns (res, s')"
    by (simp add: alternative_def)
  then show ?thesis by (rule fire_closed)
qed

lemma alternative_Exhausted:
  "alternative dflt r cases s = Returns (Exhausted, s') \<Longrightarrow> s' = s \<and> chosen r cases s = None"
  by (auto simp: alternative_def split: option.splits if_splits dest: fire_result)

lemma closed_viable:
  assumes "i < length cases" and "is_closed (get_chan s (input (cases ! i)))"
  shows "i \<in> set (viable cases s)"
  using assms by (simp add: viable_iff ready_def recv_closed)

lemma closed_fire:
  assumes "is_closed (get_chan s (input (cases ! i)))"
  shows "fire cases i s = tag (Selected i (Some ANil)) (exec_action (body (cases ! i)) ANil s)"
  using assms by (simp add: fire_def Let_def recv_closed put_get_chan)

lemma closed_never_Exhausted:
  assumes "i < length cases" and "is_closed (get_chan s (input (cases ! i)))"
  shows "alternative dflt r cases s \<noteq> Returns (Exhausted, s')"
proof
  assume "alternative dflt r cases s = Returns (Exhausted, s')"
  then have "viable cases s = []"
    by (auto dest: alternative_Exhausted simp: chosen_None)
  with closed_viable [OF assms] show False by simp
qed

lemma repetitive_closed_never_returns:
  assumes "i < length cases"
  shows "is_closed (get_chan s (input (cases ! i))) \<Longrightarrow>
         repetitive dflt rnd cases fuel tr s \<noteq> Some (Returns (tr', s'))"
proof (induction fuel arbitrary: tr s)
  case 0
  then show ?case by simp
next
  case (Suc fuel)
  show ?case
  proof (cases "alternative dflt (rnd (length tr)) cases s")
    case (Returns p)
    obtain res t where p: "p = (res, t)" by (cases p)
    have cl: "is_closed (get_chan t (input (cases ! i)))"
      using alternative_closed [of dflt "rnd (length tr)" cases s res t] Returns p Suc.prems
      by simp
    show ?thesis
    proof (cases res)
      case (Selected j v)
      with Returns p Suc.IH [OF cl] show ?thesis by simp
    next
      case Exhausted
      with Returns p closed_never_Exhausted [OF assms Suc.prems] show ?thesis by simp
    qed
  next
    case (Blocks t)
    then show ?thesis by simp
  next
    case (Panics msg t)
    then show ?thesis by simp
  qed
qed



lemma viable_two:
  "viable [c0, c1] s = (if ready c0 s then [0] else []) @ (if ready c1 s then [1] else [])"
  by (simp add: viable_def upt_rec)


lemma sless_asym: "(a::goint) <s b \<Longrightarrow> \<not> b <s a"
  by (simp add: word_sless_alt)

text \<open>
  The \<open>// when\<close> comments have no effect: the \<open>select\<close> with the comments does what
  \<open>simpleAlternative\<close> does, in every state.
\<close>

lemma alternative_ignores_conds:
  assumes inp: "map input cs = map input cs'" and bod: "map body cs = map body cs'"
  shows "alternative dflt r cs s = alternative dflt r cs' s"
proof -
  from inp have len: "length cs = length cs'"
    by (metis length_map)
  have at: "input (cs ! i) = input (cs' ! i) \<and> body (cs ! i) = body (cs' ! i)"
    if "i < length cs" for i
  proof -
    from that len have "map input cs ! i = input (cs ! i)" "map input cs' ! i = input (cs' ! i)"
      "map body cs ! i = body (cs ! i)" "map body cs' ! i = body (cs' ! i)"
      by simp_all
    with inp bod show ?thesis by simp
  qed
  have v: "viable cs s = viable cs' s"
    unfolding viable_def len [symmetric]
    by (rule filter_cong) (auto simp: ready_def at)
  then have c: "chosen r cs s = chosen r cs' s"
    by (simp add: chosen_def)
  show ?thesis
  proof (cases "chosen r cs s")
    case None
    with c show ?thesis by (simp add: alternative_def)
  next
    case (Some i)
    then have "i < length cs"
      using chosen_viable viable_iff by blast
    then have e: "input (cs ! i) = input (cs' ! i)" "body (cs ! i) = body (cs' ! i)"
      using at by simp_all
    have "fire cs i s = fire cs' i s"
      unfolding fire_def Let_def e by (rule refl)
    with Some c show ?thesis by (simp add: alternative_def)
  qed
qed

lemma when_comments_have_no_effect:
  "alternativeWithBooleanCriteria r s = simpleAlternative r s"
  unfolding alternativeWithBooleanCriteria_def simpleAlternative_def
  by (rule alternative_ignores_conds) (simp_all add: guarded_cases_def simple_cases_def)



text \<open>
  A channel that can always be read is a closed one: with \<open>alwaysReady\<close> closed both
  cases of \<open>nonInputGuards\<close> are viable and the chosen one runs at once.
\<close>

lemma nonInputGuards_with_closed_alwaysReady:
  assumes "is_closed (alwaysReady s)"
  shows "viable input_free_cases s = [0, 1]"
    and "nonInputGuards 0 s = Returns (Selected 0 (Some ANil), s\<lparr>var_m := var_x s\<rparr>)"
    and "nonInputGuards 1 s = Returns (Selected 1 (Some ANil), s\<lparr>var_m := var_y s\<rparr>)"
proof -
  from assms have r: "recv (alwaysReady s) = Some (None, alwaysReady s)"
    by (rule recv_closed)
  then show "viable input_free_cases s = [0, 1]"
    by (simp add: input_free_cases_def viable_two ready_def)
  from r show "nonInputGuards 0 s = Returns (Selected 0 (Some ANil), s\<lparr>var_m := var_x s\<rparr>)"
    by (simp add: nonInputGuards_def input_free_cases_def alternative_def chosen_def
        viable_two ready_def fire_def)
  from r show "nonInputGuards 1 s = Returns (Selected 1 (Some ANil), s\<lparr>var_m := var_y s\<rparr>)"
    by (simp add: nonInputGuards_def input_free_cases_def alternative_def chosen_def
        viable_two ready_def fire_def)
qed


section \<open>Properties\<close>



text \<open>
  C2, as stated, fails for the \<open>select\<close> of \<open>simpleAlternative\<close>: with \<open>west\<close> closed the
  case that reads from \<open>west\<close> is selected; it reads the zero value and writes it to
  \<open>east\<close>.
\<close>

theorem closed_case_selected_counterexample:
  "is_closed (west both_closed)
   \<and> simpleAlternative 0 both_closed
       = Returns (Selected 0 (Some ANil), both_closed\<lparr>east := Open [] 0 [ANil]\<rparr>)"
  by (simp add: simpleAlternative_def simple_cases_def both_closed_def init_state_def
      alternative_def chosen_def viable_two ready_def fire_def)

text \<open>
  C2, amended. A guard whose input channel is closed is viable, whatever its \<open>when\<close>
  comment: the \<open>select\<close> treats the closed channel as ready, so some draw selects the
  guard, it then reads the zero value, and the \<open>select\<close> never has nothing to choose.
  A closed channel is still closed after the \<open>select\<close>, so this holds in every later
  round, and a repetition that has such a guard never ends by exhaustion. A closed
  guard is left out only where the snippet omits its case: \<open>alternativeWithWestClosed\<close>
  has no case and returns at once.
\<close>

theorem closed_source_is_ready:
  assumes "i < length cases" and "is_closed (get_chan s (input (cases ! i)))"
  shows "i \<in> set (viable cases s)
       \<and> (\<exists>r. chosen r cases s = Some i)
       \<and> (\<forall>r. chosen r cases s \<noteq> None)
       \<and> fire cases i s
           = tag (Selected i (Some ANil)) (exec_action (body (cases ! i)) ANil s)
       \<and> (\<forall>r s'. alternative dflt r cases s \<noteq> Returns (Exhausted, s'))
       \<and> (\<forall>r res s'. alternative dflt r cases s = Returns (res, s') \<longrightarrow>
              is_closed (get_chan s' (input (cases ! i))))
       \<and> (\<forall>tr tr' s'. repetitive dflt rnd cases fuel tr s \<noteq> Some (Returns (tr', s')))
       \<and> alternativeWithWestClosed rnd (Suc n) t = Some (Returns ([], t))"
proof -
  have a: "i \<in> set (viable cases s)"
    using assms by (rule closed_viable)
  then have b: "\<exists>r. chosen r cases s = Some i"
    using viable_chosen by blast
  from a have c: "\<forall>r. chosen r cases s \<noteq> None"
    by (auto simp: chosen_None)
  have d: "fire cases i s
           = tag (Selected i (Some ANil)) (exec_action (body (cases ! i)) ANil s)"
    using assms(2) by (rule closed_fire)
  have e: "\<forall>r s'. alternative dflt r cases s \<noteq> Returns (Exhausted, s')"
    using closed_never_Exhausted [OF assms] by blast
  have f: "\<forall>r res s'. alternative dflt r cases s = Returns (res, s') \<longrightarrow>
              is_closed (get_chan s' (input (cases ! i)))"
    using alternative_closed assms(2) by blast
  have g: "\<forall>tr tr' s'. repetitive dflt rnd cases fuel tr s \<noteq> Some (Returns (tr', s'))"
    using repetitive_closed_never_returns [OF assms] by blast
  have h: "alternativeWithWestClosed rnd (Suc n) t = Some (Returns ([], t))"
    by (simp add: alternativeWithWestClosed_def alternative_def chosen_def viable_def)
  from a b c d e f g h show ?thesis by blast
qed

theorem closed_source_is_ready_witness:
  "is_closed (get_chan both_closed (input (simple_cases ! 0)))
   \<and> 0 \<in> set (viable simple_cases both_closed)
   \<and> fire simple_cases 0 both_closed
       = Returns (Selected 0 (Some ANil), both_closed\<lparr>east := Open [] 0 [ANil]\<rparr>)
   \<and> repetitive True (\<lambda>k. 0) simple_cases 1 [] both_closed
       \<noteq> Some (Returns ([], both_closed))"
  using closed_source_is_ready [of 0 simple_cases both_closed True "\<lambda>k. 0" 1 0 both_closed]
  by (simp add: simple_cases_def both_closed_def init_state_def)

text \<open>
  C3, as stated, fails for \<open>alternativeXGreaterThanY\<close>: \<open>select {}\<close> blocks in the
  initial state; it does not return.
\<close>

theorem empty_select_blocks_counterexample:
  "alternativeXGreaterThanY 0 init_state = Blocks init_state"
  by (simp add: alternativeXGreaterThanY_def alternative_def chosen_def viable_def)

text \<open>
  C3, amended. For the empty guard set, the alternative command (\<open>select {}\<close>, as in
  \<open>alternativeXGreaterThanY\<close>) raises no error and executes no action, but it blocks
  with the state unchanged instead of returning. The repetitive command, whose \<open>select\<close>
  has \<open>default: break LOOP\<close> (\<open>alternativeWithXEqualY\<close>), returns at once with nothing
  chosen and the state unchanged.
\<close>

theorem empty_select_blocks:
  "alternative False r [] s = Blocks s
   \<and> alternativeXGreaterThanY r s = Blocks s
   \<and> alternative True r [] s = Returns (Exhausted, s)
   \<and> repetitive True rnd [] (Suc fuel) [] s = Some (Returns ([], s))
   \<and> alternativeWithXEqualY rnd (Suc fuel) s = Some (Returns ([], s))"
  by (simp add: alternativeXGreaterThanY_def alternativeWithXEqualY_def
      alternative_def chosen_def viable_def)




text \<open>
  C5. The sub-expressions of a precondition are evaluated from left to right and stop
  at the first false one: when \<open>A\<close> reports false, the precondition is false and its
  result and state are those of \<open>A\<close> alone, whatever \<open>B\<close> and the later sub-expressions
  are, so \<open>B\<close> is not invoked and none of its side effects takes place.
\<close>

theorem precondition_short_circuit:
  "\<not> fst (A s) \<Longrightarrow>
     precondition [A, B] s = (False, snd (A s))
     \<and> precondition (A # B # rest) s = (False, snd (A s))
     \<and> precondition [A, B] s = precondition [A] s"
  by (cases "A s") simp

theorem precondition_short_circuit_witness:
  "\<not> fst (double_A (0, 0))
   \<and> precondition [double_A, double_B] (0, 0) = (False, (1, 0))
   \<and> precondition [double_B, double_A] (0, 0) = (False, (1, 1))"
  using precondition_short_circuit [of double_A "(0, 0)" double_B "[]"]
  by (simp add: double_A_def double_B_def)

text \<open>
  C6, as stated, fails for the read of \<open>simpleRead\<close>: on the open channel \<open>cardreader\<close>
  of the initial state, with no writer waiting, the read does not return; it blocks.
\<close>

theorem simpleRead_blocks_counterexample:
  "cardreader init_state = Open [] 0 [] \<and> simpleRead init_state = Blocks init_state"
  by (simp add: simpleRead_def init_state_def)

text \<open>
  C6, amended. The read of \<open>simpleRead\<close> returns a value of a writer only when a writer
  is waiting at that instant (and then takes the oldest one); with no waiting writer, or
  on a nil channel, it blocks; on a closed channel it returns at once with the zero
  value and neither panics nor blocks.
\<close>

theorem simpleRead_needs_writer:
  "(cardreader s = Open (v # vs) r d \<longrightarrow>
      simpleRead s = Returns (s\<lparr>cardreader := Open vs r d, cardimage := v\<rparr>))
   \<and> (simpleRead s = Returns s' \<and> \<not> is_closed (cardreader s) \<longrightarrow>
      (\<exists>w ws n l. cardreader s = Open (w # ws) n l \<and> cardimage s' = w))
   \<and> (cardreader s = Open [] r d \<or> cardreader s = NilChan \<longrightarrow> simpleRead s = Blocks s)
   \<and> (cardreader s = Closed d \<longrightarrow> simpleRead s = Returns (s\<lparr>cardimage := []\<rparr>))"
proof -
  have "simpleRead s = Returns s' \<and> \<not> is_closed (cardreader s) \<longrightarrow>
      (\<exists>w ws n l. cardreader s = Open (w # ws) n l \<and> cardimage s' = w)"
    by (cases "cardreader s" rule: recv.cases) (auto simp: simpleRead_def)
  moreover have "cardreader s = Closed d \<longrightarrow> simpleRead s = Returns (s\<lparr>cardimage := []\<rparr>)"
  proof
    assume c: "cardreader s = Closed d"
    then have "s\<lparr>cardreader := Closed d\<rparr> = s" by simp
    with c show "simpleRead s = Returns (s\<lparr>cardimage := []\<rparr>)"
      by (simp add: simpleRead_def)
  qed
  ultimately show ?thesis by (auto simp: simpleRead_def)
qed

theorem simpleRead_needs_writer_witness:
  "simpleRead card_waiting = Returns (init_state\<lparr>cardimage := ''card''\<rparr>)
   \<and> simpleRead (init_state\<lparr>cardreader := NilChan\<rparr>) = Blocks (init_state\<lparr>cardreader := NilChan\<rparr>)
   \<and> simpleRead reader_closed = Returns (init_state\<lparr>cardreader := Closed []\<rparr>)"
  using simpleRead_needs_writer [where s = card_waiting and v = "''card''" and vs = "[]"
          and r = 0 and d = "[]"]
        simpleRead_needs_writer [where s = "init_state\<lparr>cardreader := NilChan\<rparr>"]
        simpleRead_needs_writer [where s = reader_closed and d = "[]"]
  by (simp add: card_waiting_def reader_closed_def init_state_def)

text \<open>
  C7. A write to a closed channel fails at once with the panic "send on closed
  channel": it does not block, and the state at the panic is the state before the write,
  so nothing was delivered. This holds for \<open>simpleWrite\<close> and for the writes in the
  bodies of the \<open>select\<close> cases. A read from a closed channel does not fail: \<open>simpleRead\<close>
  returns with the zero value.
\<close>

theorem write_to_closed_panics:
  "(is_closed (lineprinter s) \<longrightarrow> simpleWrite s = Panics ''send on closed channel'' s)
   \<and> (is_closed (get_chan s n) \<longrightarrow>
        exec_action (SendTo n) v s = Panics ''send on closed channel'' s)
   \<and> (is_closed (cardreader s) \<longrightarrow> simpleRead s = Returns (s\<lparr>cardimage := []\<rparr>))"
proof -
  have "is_closed (cardreader s) \<longrightarrow> simpleRead s = Returns (s\<lparr>cardimage := []\<rparr>)"
  proof
    assume "is_closed (cardreader s)"
    then obtain d where c: "cardreader s = Closed d" by (cases "cardreader s") simp_all
    then have "s\<lparr>cardreader := Closed d\<rparr> = s" by simp
    with c show "simpleRead s = Returns (s\<lparr>cardimage := []\<rparr>)"
      by (simp add: simpleRead_def)
  qed
  then show ?thesis by (simp add: simpleWrite_def send_closed)
qed

theorem write_to_closed_panics_witness:
  "simpleWrite printer_closed = Panics ''send on closed channel'' printer_closed
   \<and> lineprinter printer_closed = Closed []
   \<and> simpleRead reader_closed = Returns (reader_closed\<lparr>cardimage := []\<rparr>)"
  using write_to_closed_panics [of printer_closed West ANil]
        write_to_closed_panics [of reader_closed West ANil]
  by (simp add: printer_closed_def reader_closed_def init_state_def)

text \<open>
  C8. The guards without input of \<open>nonInputGuards\<close> are the cases \<open>case <-alwaysReady\<close>.
  The variable \<open>alwaysReady\<close> is declared without a value, so it is a nil channel and a
  read from it never proceeds: in the state after package initialisation with \<open>x = 1\<close>
  and \<open>y = 0\<close>, where \<open>x > y\<close> holds, no case is viable and \<open>nonInputGuards\<close> blocks with
  \<open>m\<close> unassigned, for every draw.
\<close>

theorem nonInputGuards_blocks:
  "x_gt_y (init_state\<lparr>var_x := 1\<rparr>)
   \<and> alwaysReady (init_state\<lparr>var_x := 1\<rparr>) = NilChan
   \<and> viable input_free_cases (init_state\<lparr>var_x := 1\<rparr>) = []
   \<and> nonInputGuards r (init_state\<lparr>var_x := 1\<rparr>) = Blocks (init_state\<lparr>var_x := 1\<rparr>)"
  by (simp add: nonInputGuards_def input_free_cases_def alternative_def chosen_def
      viable_two ready_def x_gt_y_def init_state_def word_sless_alt)

text \<open>
  C9. Every call of \<open>assignmentExamples\<close> panics and never returns normally: the type
  assertion \<open>rhs.(insert)\<close> of its last statement is applied to a value whose dynamic type
  is \<open>has\<close>, so it fails in every state, and the assignment to \<open>lhs\<close> is not carried out
  (the state at the panic still has the \<open>lhs\<close> of the call).
\<close>

theorem assignmentExamples_panics:
  "\<exists>s'. assignmentExamples s =
          Panics ''interface conversion: interface {} is csp.has, not csp.insert'' s'
        \<and> lhs s' = lhs s"
  by (simp add: assignmentExamples_def type_assert_def Let_def)

text \<open>
  C10. Every call of \<open>parallel\<close> panics before either communication runs: the nil
  parent context makes \<open>errgroup.WithContext\<close> panic, so neither the read from
  \<open>cardreader\<close> nor the write to \<open>lineprinter\<close> is started (the state at the panic is
  the state of the call) and no error value is returned.
\<close>

theorem parallel_panics:
  "parallel s = Panics ''cannot create context from nil parent'' s"
  by (simp add: parallel_def errgroup_WithContext_def context_WithCancel_def)

end
